theory Spec2Isabelle
  imports Complex_Main
begin

section \<open>Python strings\<close>

text \<open>
  A Python 3 \<^verbatim>\<open>str\<close> is a sequence of Unicode code points, so a string is a list of
  natural numbers. \<open>py\<close> turns an Isabelle string literal into such a list.
\<close>

type_synonym pystr = "nat list"

type_synonym bytes = "nat list"

definition py :: "string \<Rightarrow> pystr" where
  "py s = map of_char s"

text \<open>
  \<^verbatim>\<open>str.isalnum\<close>, \<^verbatim>\<open>str.lower\<close> and \<^verbatim>\<open>str.strip\<close> are built into Python. On ASCII
  they are written out here. Beyond ASCII, \<^verbatim>\<open>isalnum\<close> and \<^verbatim>\<open>lower\<close> read the
  Unicode character database, which is not part of the program: the tables are
  parameters (\<open>uni_alnum\<close>, \<open>uni_lower\<close>). The white space that \<^verbatim>\<open>strip\<close> removes is
  CPython's fixed list.
\<close>

record unicode =
  uni_alnum :: "nat \<Rightarrow> bool"
  uni_lower :: "pystr \<Rightarrow> pystr"

definition ascii_alnum :: "nat \<Rightarrow> bool" where
  "ascii_alnum c \<longleftrightarrow> (48 \<le> c \<and> c \<le> 57) \<or> (65 \<le> c \<and> c \<le> 90) \<or> (97 \<le> c \<and> c \<le> 122)"

definition isalnum :: "unicode \<Rightarrow> nat \<Rightarrow> bool" where
  "isalnum U c = (if c < 128 then ascii_alnum c else uni_alnum U c)"

definition isspace :: "nat \<Rightarrow> bool" where
  "isspace c \<longleftrightarrow>
     (9 \<le> c \<and> c \<le> 13) \<or> (28 \<le> c \<and> c \<le> 32) \<or> c = 133 \<or> c = 160 \<or> c = 5760 \<or>
     (8192 \<le> c \<and> c \<le> 8202) \<or> c = 8232 \<or> c = 8233 \<or> c = 8239 \<or> c = 8287 \<or> c = 12288"

definition strip :: "pystr \<Rightarrow> pystr" where
  "strip s = rev (dropWhile isspace (rev (dropWhile isspace s)))"

definition ascii_lower :: "nat \<Rightarrow> nat" where
  "ascii_lower c = (if 65 \<le> c \<and> c \<le> 90 then c + 32 else c)"

definition lower :: "unicode \<Rightarrow> pystr \<Rightarrow> pystr" where
  "lower U s = (if list_all (\<lambda>c. c < 128) s then map ascii_lower s else uni_lower U s)"

text \<open>\<^verbatim>\<open>s.replace(' ', '_')\<close>: every space becomes an underscore.\<close>

definition replace_space :: "pystr \<Rightarrow> pystr" where
  "replace_space s = map (\<lambda>c. if c = 32 then 95 else c) s"

section \<open>The file name of a download\<close>

text \<open>
  \<^verbatim>\<open>datetime.now().strftime("%Y%m%d_%H%M%S")\<close>. A \<^verbatim>\<open>datetime\<close> has
  \<open>1 \<le> year \<le> 9999\<close>, a month in 1..12, a day in 1..31, an hour below 24, minutes and
  seconds below 60. \<^verbatim>\<open>%m %d %H %M %S\<close> print two digits; \<^verbatim>\<open>%Y\<close> prints the year in
  decimal, which is four digits from the year 1000 on.
\<close>

record datetime =
  year :: nat
  month :: nat
  day :: nat
  hour :: nat
  minute :: nat
  second :: nat

definition valid_datetime :: "datetime \<Rightarrow> bool" where
  "valid_datetime d \<longleftrightarrow>
     1000 \<le> year d \<and> year d \<le> 9999 \<and> 1 \<le> month d \<and> month d \<le> 12 \<and>
     1 \<le> day d \<and> day d \<le> 31 \<and> hour d < 24 \<and> minute d < 60 \<and> second d < 60"

definition digit :: "nat \<Rightarrow> nat" where
  "digit n = 48 + n mod 10"

fun decimal :: "nat \<Rightarrow> pystr" where
  "decimal n = (if n < 10 then [digit n] else decimal (n div 10) @ [digit n])"

definition two_digits :: "nat \<Rightarrow> pystr" where
  "two_digits n = (if n < 10 then [48] @ decimal n else decimal n)"

definition strftime :: "datetime \<Rightarrow> pystr" where
  "strftime d = decimal (year d) @ two_digits (month d) @ two_digits (day d) @ [95] @
                two_digits (hour d) @ two_digits (minute d) @ two_digits (second d)"

text \<open>Lines 85 and 86 of \<^verbatim>\<open>download_image\<close>.\<close>

definition keep_char :: "unicode \<Rightarrow> nat \<Rightarrow> bool" where
  "keep_char U c \<longleftrightarrow> isalnum U c \<or> c \<in> {32, 45, 95}"

definition safe_prompt :: "unicode \<Rightarrow> pystr \<Rightarrow> pystr" where
  "safe_prompt U prompt = replace_space (strip (filter (keep_char U) (take 50 prompt)))"

text \<open>Line 87.\<close>

definition filename :: "unicode \<Rightarrow> datetime \<Rightarrow> pystr \<Rightarrow> pystr" where
  "filename U now prompt = strftime now @ py ''_'' @ safe_prompt U prompt @ py ''.png''"

text \<open>\<^verbatim>\<open>os.path.join(a, b)\<close> of \<^verbatim>\<open>posixpath\<close>, for two components.\<close>

definition path_join :: "pystr \<Rightarrow> pystr \<Rightarrow> pystr" where
  "path_join a b =
     (if b \<noteq> [] \<and> hd b = 47 then b
      else if a = [] \<or> last a = 47 then a @ b
      else a @ [47] @ b)"

definition is_digit :: "nat \<Rightarrow> bool" where
  "is_digit c \<longleftrightarrow> 48 \<le> c \<and> c \<le> 57"

text \<open>The shape \<^verbatim>\<open>YYYYMMDD_HHMMSS\<close>: fifteen characters, digits but for the ninth.\<close>

definition timestamp_shape :: "pystr \<Rightarrow> bool" where
  "timestamp_shape s \<longleftrightarrow>
     length s = 15 \<and> list_all is_digit (take 8 s) \<and> s ! 8 = 95 \<and> list_all is_digit (drop 9 s)"

section \<open>JSON values and the Python operations applied to them\<close>

text \<open>
  \<^verbatim>\<open>response.json()\<close> returns whatever JSON value the body holds: a JSON object is a
  \<^verbatim>\<open>dict\<close> (here its list of items), an array a \<^verbatim>\<open>list\<close>, \<^verbatim>\<open>null\<close> is \<^verbatim>\<open>None\<close>.
  So \<open>JNull\<close> is also the \<^verbatim>\<open>None\<close> that \<^verbatim>\<open>generate_image\<close> returns on failure.
\<close>

datatype json =
  JNull
| JBool bool
| JNum real
| JStr pystr
| JArr "json list"
| JObj "(pystr \<times> json) list"

text \<open>
  The exceptions of the program. The first four are subclasses of
  \<^verbatim>\<open>requests.exceptions.RequestException\<close>; \<open>HTTPError\<close> carries the status and the
  text of its response, the others have no response. The last six are not
  \<^verbatim>\<open>RequestException\<close>s.
\<close>

datatype exn =
  ConnectionError pystr
| HTTPError nat pystr
| JSONDecodeError
| MissingSchema
| OSError
| EOFError
| KeyError
| TypeError
| IndexError
| UnicodeEncodeError

fun is_request_exception :: "exn \<Rightarrow> bool" where
  "is_request_exception (ConnectionError d) = True"
| "is_request_exception (HTTPError s t) = True"
| "is_request_exception JSONDecodeError = True"
| "is_request_exception MissingSchema = True"
| "is_request_exception e = False"

fun response_text :: "exn \<Rightarrow> pystr option" where
  "response_text (HTTPError s t) = Some t"
| "response_text e = None"

text \<open>\<^verbatim>\<open>bool(x)\<close>, as \<^verbatim>\<open>if\<close> and \<^verbatim>\<open>and\<close> apply it.\<close>

fun truthy :: "json \<Rightarrow> bool" where
  "truthy JNull = False"
| "truthy (JBool b) = b"
| "truthy (JNum x) = (x \<noteq> 0)"
| "truthy (JStr s) = (s \<noteq> [])"
| "truthy (JArr xs) = (xs \<noteq> [])"
| "truthy (JObj kvs) = (kvs \<noteq> [])"

fun contains_str :: "pystr \<Rightarrow> pystr \<Rightarrow> bool" where
  "contains_str needle [] = (needle = [])"
| "contains_str needle (c # cs) = (take (length needle) (c # cs) = needle \<or> contains_str needle cs)"

text \<open>\<^verbatim>\<open>k in x\<close> for a string \<open>k\<close>: a key of a dict, an element of a list, a substring of
  a string; a number, a boolean or \<^verbatim>\<open>None\<close> is not iterable.\<close>

fun py_in :: "pystr \<Rightarrow> json \<Rightarrow> exn + bool" where
  "py_in k (JObj kvs) = Inr (k \<in> set (map fst kvs))"
| "py_in k (JArr xs) = Inr (JStr k \<in> set xs)"
| "py_in k (JStr s) = Inr (contains_str k s)"
| "py_in k x = Inl TypeError"

text \<open>\<^verbatim>\<open>x[k]\<close> for a string \<open>k\<close>.\<close>

fun py_getitem :: "json \<Rightarrow> pystr \<Rightarrow> exn + json" where
  "py_getitem (JObj kvs) k = (case map_of kvs k of None \<Rightarrow> Inl KeyError | Some v \<Rightarrow> Inr v)"
| "py_getitem x k = Inl TypeError"

text \<open>\<^verbatim>\<open>x[0]\<close>. The keys of a decoded JSON object are strings, so \<open>0\<close> is never one.\<close>

fun py_first :: "json \<Rightarrow> exn + json" where
  "py_first (JArr []) = Inl IndexError"
| "py_first (JArr (x # xs)) = Inr x"
| "py_first (JStr []) = Inl IndexError"
| "py_first (JStr (c # cs)) = Inr (JStr [c])"
| "py_first (JObj kvs) = Inl KeyError"
| "py_first x = Inl TypeError"

fun py_len :: "json \<Rightarrow> exn + nat" where
  "py_len (JArr xs) = Inr (length xs)"
| "py_len (JStr s) = Inr (length s)"
| "py_len (JObj kvs) = Inr (length (remdups (map fst kvs)))"
| "py_len x = Inl TypeError"

section \<open>The world: standard input and output, the network, the file system, the clock\<close>

datatype msg =
  MsgFolder pystr
| MsgGenerating pystr
| MsgErrorGenerating exn
| MsgResponse pystr
| MsgDownloading
| MsgSaved pystr
| MsgErrorDownloading exn
| MsgNoImageUrl
| MsgRule
| MsgTitle
| MsgApiKeyRequired
| MsgReady
| MsgOptions
| MsgOptionSize
| MsgOptionQuality
| MsgOptionStyle
| MsgSeparator
| MsgGoodbye nat
| MsgPromptEmpty
| MsgSuccess nat
| MsgFailed

datatype question = AskApiKey | AskFolder | AskPrompt | AskCustom | AskSize | AskQuality | AskStyle

record http_request =
  req_url :: pystr
  req_headers :: "(pystr \<times> pystr) list"
  req_json :: "(pystr \<times> json) list"

record http_response =
  status :: nat
  body_text :: pystr
  json_body :: "json option"
  content :: bytes

datatype reply = Failed pystr | Response http_response

text \<open>Everything the program does to the world, in order.\<close>

datatype event =
  Print msg
| Ask question
| Mkdir pystr
| HttpPost http_request
| HttpGet pystr
| WriteFile pystr bytes
| Sleep nat

text \<open>
  What the world answers is not in the program: each answer is a parameter, and may
  depend on everything that has happened so far. \<open>json_body\<close> of a response is the
  decoded body, \<open>None\<close> when the body is not JSON.
\<close>

record env =
  tables :: unicode
  http_post :: "event list \<Rightarrow> http_request \<Rightarrow> reply"
  http_get :: "event list \<Rightarrow> pystr \<Rightarrow> reply"
  file_write :: "event list \<Rightarrow> pystr \<Rightarrow> bytes \<Rightarrow> bool"
  mkdir :: "event list \<Rightarrow> pystr \<Rightarrow> bool"
  clock :: "event list \<Rightarrow> datetime"

record state =
  trace :: "event list"
  stdin :: "pystr list"

definition emit :: "event \<Rightarrow> state \<Rightarrow> state" where
  "emit e st = st\<lparr>trace := trace st @ [e]\<rparr>"

text \<open>\<^verbatim>\<open>input(q)\<close>: prints the question, reads a line; \<^verbatim>\<open>EOFError\<close> at the end of input.\<close>

definition input_line :: "question \<Rightarrow> state \<Rightarrow> (exn + pystr) \<times> state" where
  "input_line q st =
     (case stdin st of
        [] \<Rightarrow> (Inl EOFError, emit (Ask q) st)
      | l # ls \<Rightarrow> (Inr l, (emit (Ask q) st)\<lparr>stdin := ls\<rparr>))"

section \<open>GrokImageGenerator\<close>

record generator =
  api_key :: pystr
  download_folder :: pystr
  base_url :: pystr

text \<open>\<^verbatim>\<open>__init__\<close>: \<^verbatim>\<open>mkdir\<close> raises \<^verbatim>\<open>OSError\<close> when the folder cannot be made.\<close>

definition init :: "env \<Rightarrow> pystr \<Rightarrow> pystr \<Rightarrow> state \<Rightarrow> (exn + generator) \<times> state" where
  "init E key folder st =
     (let st1 = emit (Mkdir folder) st in
      if mkdir E (trace st) folder
      then (Inr \<lparr>api_key = key, download_folder = folder, base_url = py ''https://x.com/i/grok''\<rparr>,
            emit (Print (MsgFolder folder)) st1)
      else (Inl OSError, st1))"

text \<open>\<^verbatim>\<open>response.raise_for_status()\<close> raises for a status from 400 to 599.\<close>

definition raise_for_status :: "http_response \<Rightarrow> exn + unit" where
  "raise_for_status r =
     (if 400 \<le> status r \<and> status r < 600 then Inl (HTTPError (status r) (body_text r)) else Inr ())"

text \<open>Lines 46 to 58: the headers and the payload.\<close>

definition headers :: "generator \<Rightarrow> (pystr \<times> pystr) list" where
  "headers g =
     [(py ''Authorization'', py ''Bearer '' @ api_key g),
      (py ''Content-Type'', py ''application/json'')]"

definition payload :: "pystr \<Rightarrow> pystr \<Rightarrow> pystr \<Rightarrow> pystr \<Rightarrow> pystr \<Rightarrow> (pystr \<times> json) list" where
  "payload model prompt size' quality style =
     [(py ''model'', JStr model), (py ''prompt'', JStr prompt), (py ''n'', JNum 1),
      (py ''size'', JStr size'), (py ''quality'', JStr quality), (py ''style'', JStr style)]"

text \<open>
  The values of the headers go on the wire in latin-1: a value with a code point from 256
  on cannot be encoded.
\<close>

definition latin1 :: "pystr \<Rightarrow> bool" where
  "latin1 s = list_all (\<lambda>c. c < 256) s"

definition encodable :: "http_request \<Rightarrow> bool" where
  "encodable req = list_all (\<lambda>(k, v). latin1 v) (req_headers req)"

text \<open>
  Lines 62 to 64, in the \<^verbatim>\<open>try\<close>. \<^verbatim>\<open>requests.post\<close> connects first, and a failure there
  is a \<^verbatim>\<open>RequestException\<close>. Then it writes the headers: a value that latin-1 cannot
  encode raises \<^verbatim>\<open>UnicodeEncodeError\<close>, which is no \<^verbatim>\<open>RequestException\<close>. Then comes the
  response; \<^verbatim>\<open>response.json()\<close> raises \<^verbatim>\<open>requests.exceptions.JSONDecodeError\<close> on a body
  that is not JSON, which is a \<^verbatim>\<open>RequestException\<close> too (from \<^verbatim>\<open>requests\<close> 2.27 on).
  The event \<open>HttpPost\<close> is the call of \<^verbatim>\<open>requests.post\<close>, whatever comes of it.
\<close>

definition post_image :: "env \<Rightarrow> http_request \<Rightarrow> state \<Rightarrow> (exn + json) \<times> state" where
  "post_image E req st =
     (let st1 = emit (HttpPost req) st
      in case http_post E (trace st) req of
           Failed d \<Rightarrow> (Inl (ConnectionError d), st1)
         | Response r \<Rightarrow>
             if \<not> encodable req then (Inl UnicodeEncodeError, st1)
             else (case raise_for_status r of
                     Inl e \<Rightarrow> (Inl e, st1)
                   | Inr u \<Rightarrow>
                       (case json_body r of
                          None \<Rightarrow> (Inl JSONDecodeError, st1)
                        | Some j \<Rightarrow> (Inr j, st1))))"

text \<open>
  \<^verbatim>\<open>generate_image\<close>. The handler is \<^verbatim>\<open>except RequestException\<close>: any other exception
  leaves the function. \<^verbatim>\<open>hasattr(e.response, 'text')\<close> holds when the exception has a
  response.
\<close>

definition generate_image ::
  "env \<Rightarrow> generator \<Rightarrow> pystr \<Rightarrow> pystr \<Rightarrow> pystr \<Rightarrow> pystr \<Rightarrow> pystr \<Rightarrow> state \<Rightarrow> (exn + json) \<times> state" where
  "generate_image E g prompt model size' quality style st =
     (let req = \<lparr>req_url = base_url g, req_headers = headers g,
                 req_json = payload model prompt size' quality style\<rparr>
      in case post_image E req (emit (Print (MsgGenerating prompt)) st) of
           (Inr j, st1) \<Rightarrow> (Inr j, st1)
         | (Inl e, st1) \<Rightarrow>
             if is_request_exception e
             then (let st2 = emit (Print (MsgErrorGenerating e)) st1
                   in (Inr JNull,
                       case response_text e of
                         Some t \<Rightarrow> emit (Print (MsgResponse t)) st2
                       | None \<Rightarrow> st2))
             else (Inl e, st1))"

text \<open>
  Lines 84 to 100, the body of the \<^verbatim>\<open>try\<close> of \<^verbatim>\<open>download_image\<close>. The URL comes out
  of the decoded response, so it is a JSON value; \<^verbatim>\<open>requests.get\<close> of a value that is
  not a string finds no usable URL scheme and raises (\<^verbatim>\<open>MissingSchema\<close> or its sibling
  \<^verbatim>\<open>InvalidSchema\<close>, written \<open>MissingSchema\<close> here) before any request is sent.
\<close>

definition fetch_image :: "env \<Rightarrow> generator \<Rightarrow> json \<Rightarrow> pystr \<Rightarrow> state \<Rightarrow> (exn + pystr) \<times> state" where
  "fetch_image E g image_url prompt st =
     (let filepath = path_join (download_folder g)
                       (filename (tables E) (clock E (trace st)) prompt);
          st1 = emit (Print MsgDownloading) st
      in case image_url of
           JStr u \<Rightarrow>
             (let st2 = emit (HttpGet u) st1
              in case http_get E (trace st1) u of
                   Failed d \<Rightarrow> (Inl (ConnectionError d), st2)
                 | Response r \<Rightarrow>
                     (case raise_for_status r of
                        Inl e \<Rightarrow> (Inl e, st2)
                      | Inr x \<Rightarrow>
                          if file_write E (trace st2) filepath (content r)
                          then (Inr filepath,
                                emit (Print (MsgSaved filepath))
                                  (emit (WriteFile filepath (content r)) st2))
                          else (Inl OSError, st2)))
         | other \<Rightarrow> (Inl MissingSchema, st1))"

text \<open>\<^verbatim>\<open>download_image\<close>. The handler is \<^verbatim>\<open>except Exception\<close>: it takes every exception.\<close>

definition download_image ::
  "env \<Rightarrow> generator \<Rightarrow> json \<Rightarrow> pystr \<Rightarrow> state \<Rightarrow> (exn + pystr option) \<times> state" where
  "download_image E g image_url prompt st =
     (case fetch_image E g image_url prompt st of
        (Inr filepath, st1) \<Rightarrow> (Inr (Some filepath), st1)
      | (Inl e, st1) \<Rightarrow> (Inr None, emit (Print (MsgErrorDownloading e)) st1))"

text \<open>
  The keyword arguments that \<^verbatim>\<open>main\<close> passes on: each of \<^verbatim>\<open>size\<close>, \<^verbatim>\<open>quality\<close>,
  \<^verbatim>\<open>style\<close> is there or not, and \<^verbatim>\<open>generate_image\<close> has a default for each.
\<close>

record kwargs =
  kw_size :: "pystr option"
  kw_quality :: "pystr option"
  kw_style :: "pystr option"

definition or_default :: "pystr option \<Rightarrow> string \<Rightarrow> pystr" where
  "or_default v d = (case v of None \<Rightarrow> py d | Some s \<Rightarrow> s)"

text \<open>The condition of line 118; \<^verbatim>\<open>and\<close> stops at the first false operand.\<close>

definition has_images :: "json \<Rightarrow> exn + bool" where
  "has_images result =
     (if \<not> truthy result then Inr False
      else case py_in (py ''data'') result of
             Inl e \<Rightarrow> Inl e
           | Inr False \<Rightarrow> Inr False
           | Inr True \<Rightarrow>
               (case py_getitem result (py ''data'') of
                  Inl e \<Rightarrow> Inl e
                | Inr d \<Rightarrow>
                    (case py_len d of
                       Inl e \<Rightarrow> Inl e
                     | Inr n \<Rightarrow> Inr (n > 0))))"

text \<open>Line 119: \<^verbatim>\<open>result['data'][0]['url']\<close>.\<close>

definition first_url :: "json \<Rightarrow> exn + json" where
  "first_url result =
     (case py_getitem result (py ''data'') of
        Inl e \<Rightarrow> Inl e
      | Inr d \<Rightarrow>
          (case py_first d of
             Inl e \<Rightarrow> Inl e
           | Inr x \<Rightarrow> py_getitem x (py ''url'')))"

text \<open>\<^verbatim>\<open>generate_and_download\<close> has no handler of its own.\<close>

definition generate_and_download ::
  "env \<Rightarrow> generator \<Rightarrow> pystr \<Rightarrow> kwargs \<Rightarrow> state \<Rightarrow> (exn + pystr option) \<times> state" where
  "generate_and_download E g prompt kw st =
     (case generate_image E g prompt (py ''grok-2-vision-1212'')
             (or_default (kw_size kw) ''1024x1024'')
             (or_default (kw_quality kw) ''medium'')
             (or_default (kw_style kw) ''natural'') st of
        (Inl e, st1) \<Rightarrow> (Inl e, st1)
      | (Inr result, st1) \<Rightarrow>
          (case has_images result of
             Inl e \<Rightarrow> (Inl e, st1)
           | Inr True \<Rightarrow>
               (case first_url result of
                  Inl e \<Rightarrow> (Inl e, st1)
                | Inr image_url \<Rightarrow> download_image E g image_url prompt st1)
           | Inr False \<Rightarrow> (Inr None, emit (Print MsgNoImageUrl) st1)))"

section \<open>main\<close>

text \<open>Lines 173 to 187: the optional settings. A blank answer leaves the default.\<close>

definition read_option :: "question \<Rightarrow> state \<Rightarrow> (exn + pystr option) \<times> state" where
  "read_option q st =
     (case input_line q st of
        (Inl e, st1) \<Rightarrow> (Inl e, st1)
      | (Inr l, st1) \<Rightarrow> (Inr (if strip l = [] then None else Some (strip l)), st1))"

definition read_kwargs :: "unicode \<Rightarrow> state \<Rightarrow> (exn + kwargs) \<times> state" where
  "read_kwargs U st =
     (case input_line AskCustom st of
        (Inl e, st1) \<Rightarrow> (Inl e, st1)
      | (Inr l, st1) \<Rightarrow>
          if lower U (strip l) = py ''y''
          then (case read_option AskSize st1 of
                  (Inl e, st2) \<Rightarrow> (Inl e, st2)
                | (Inr sz, st2) \<Rightarrow>
                    (case read_option AskQuality st2 of
                       (Inl e, st3) \<Rightarrow> (Inl e, st3)
                     | (Inr quality, st3) \<Rightarrow>
                         (case read_option AskStyle st3 of
                            (Inl e, st4) \<Rightarrow> (Inl e, st4)
                          | (Inr style, st4) \<Rightarrow>
                              (Inr \<lparr>kw_size = sz, kw_quality = quality, kw_style = style\<rparr>, st4))))
          else (Inr \<lparr>kw_size = None, kw_quality = None, kw_style = None\<rparr>, st1))"

text \<open>\<^verbatim>\<open>if filepath:\<close> is false for \<^verbatim>\<open>None\<close> and for the empty string.\<close>

definition truthy_path :: "pystr option \<Rightarrow> bool" where
  "truthy_path filepath = (case filepath of None \<Rightarrow> False | Some p \<Rightarrow> p \<noteq> [])"

text \<open>Lines 192 to 196.\<close>

definition count_result :: "nat \<Rightarrow> pystr option \<Rightarrow> state \<Rightarrow> nat \<times> state" where
  "count_result image_count filepath st =
     (if truthy_path filepath
      then (image_count + 1, emit (Print (MsgSuccess (image_count + 1))) st)
      else (image_count, emit (Print MsgFailed) st))"

definition exit_keywords :: "pystr list" where
  "exit_keywords = [py ''quit'', py ''exit'', py ''q'']"

text \<open>
  One turn of the \<^verbatim>\<open>while True\<close> loop, lines 161 to 199: it breaks, or goes on with
  the new count (after \<^verbatim>\<open>continue\<close> or at the end of the body), or an exception
  leaves it.
\<close>

datatype turn = Break | Continue nat | Raise exn

definition loop_body :: "env \<Rightarrow> generator \<Rightarrow> nat \<Rightarrow> state \<Rightarrow> turn \<times> state" where
  "loop_body E g image_count st =
     (case input_line AskPrompt (emit (Print MsgSeparator) st) of
        (Inl e, st1) \<Rightarrow> (Raise e, st1)
      | (Inr l, st1) \<Rightarrow>
          (let prompt = strip l in
           if lower (tables E) prompt \<in> set exit_keywords
           then (Break, emit (Print (MsgGoodbye image_count)) st1)
           else if prompt = []
           then (Continue image_count, emit (Print MsgPromptEmpty) st1)
           else (case read_kwargs (tables E) st1 of
                   (Inl e, st2) \<Rightarrow> (Raise e, st2)
                 | (Inr kw, st2) \<Rightarrow>
                     (case generate_and_download E g prompt kw st2 of
                        (Inl e, st3) \<Rightarrow> (Raise e, st3)
                      | (Inr filepath, st3) \<Rightarrow>
                          (case count_result image_count filepath st3 of
                             (n, st4) \<Rightarrow> (Continue n, emit (Sleep 1) st4))))))"

subsection \<open>Every turn that goes on has read a line\<close>

lemma stdin_emit [simp]: "stdin (emit e st) = stdin st"
  by (simp add: emit_def)

lemma trace_emit [simp]: "trace (emit e st) = trace st @ [e]"
  by (simp add: emit_def)

lemma input_line_stdin:
  "input_line q st = (r, st') \<Longrightarrow> length (stdin st') \<le> length (stdin st)"
  by (auto simp: input_line_def split: list.splits)

lemma input_line_consumes:
  "input_line q st = (Inr l, st') \<Longrightarrow> length (stdin st') < length (stdin st)"
  by (auto simp: input_line_def split: list.splits)

lemma read_option_stdin:
  "read_option q st = (r, st') \<Longrightarrow> length (stdin st') \<le> length (stdin st)"
  by (auto simp: read_option_def split: prod.splits sum.splits dest: input_line_stdin)

lemma read_kwargs_stdin:
  "read_kwargs U st = (r, st') \<Longrightarrow> length (stdin st') \<le> length (stdin st)"
  unfolding read_kwargs_def
  by (auto split: prod.splits sum.splits if_splits
      dest!: input_line_stdin read_option_stdin)

lemma post_image_stdin: "post_image E req st = (r, st') \<Longrightarrow> stdin st' = stdin st"
  by (auto simp: post_image_def Let_def split: reply.splits sum.splits option.splits if_splits)

lemma generate_image_stdin:
  "generate_image E g p m s q y st = (r, st') \<Longrightarrow> stdin st' = stdin st"
  by (auto simp: generate_image_def Let_def split: prod.splits sum.splits if_splits option.splits
      dest!: post_image_stdin)

lemma fetch_image_stdin: "fetch_image E g u p st = (r, st') \<Longrightarrow> stdin st' = stdin st"
  by (auto simp: fetch_image_def Let_def split: json.splits reply.splits sum.splits if_splits)

lemma download_image_stdin: "download_image E g u p st = (r, st') \<Longrightarrow> stdin st' = stdin st"
  by (auto simp: download_image_def split: prod.splits sum.splits dest!: fetch_image_stdin)

lemma generate_and_download_stdin:
  "generate_and_download E g p kw st = (r, st') \<Longrightarrow> stdin st' = stdin st"
  unfolding generate_and_download_def
  by (auto split: prod.splits sum.splits bool.splits
      dest!: generate_image_stdin download_image_stdin)

lemma count_result_stdin: "count_result n f st = (n', st') \<Longrightarrow> stdin st' = stdin st"
  by (auto simp: count_result_def split: if_splits)

lemma loop_body_consumes:
  assumes "loop_body E g n st = (Continue n', st')"
  shows "length (stdin st') < length (stdin st)"
proof -
  obtain l st1 where i: "input_line AskPrompt (emit (Print MsgSeparator) st) = (Inr l, st1)"
    using assms by (auto simp: loop_body_def split: prod.splits sum.splits)
  then have s1: "length (stdin st1) < length (stdin st)"
    using input_line_consumes [OF i] by simp
  have "length (stdin st') \<le> length (stdin st1)"
    using assms i
    by (auto simp: loop_body_def Let_def split: prod.splits sum.splits if_splits
        dest!: read_kwargs_stdin generate_and_download_stdin count_result_stdin)
  with s1 show ?thesis by simp
qed

subsection \<open>The loop and the program\<close>

datatype outcome = Returned | Raised exn

text \<open>
  The \<^verbatim>\<open>while True\<close> loop. Standard input is a finite list of lines, and every turn
  that goes on has read one, so the loop ends: with \<^verbatim>\<open>break\<close>, or with an exception
  (\<^verbatim>\<open>EOFError\<close> at the end of input at the latest).
\<close>

function main_loop :: "env \<Rightarrow> generator \<Rightarrow> nat \<Rightarrow> state \<Rightarrow> outcome \<times> state" where
  "main_loop E g image_count st =
     (case loop_body E g image_count st of
        (Break, st') \<Rightarrow> (Returned, st')
      | (Raise e, st') \<Rightarrow> (Raised e, st')
      | (Continue n, st') \<Rightarrow> main_loop E g n st')"
  by pat_completeness auto
termination
  by (relation "measure (\<lambda>(E, g, n, st). length (stdin st))")
     (auto dest: loop_body_consumes [OF sym])

definition emits :: "event list \<Rightarrow> state \<Rightarrow> state" where
  "emits es st = st\<lparr>trace := trace st @ es\<rparr>"

text \<open>\<^verbatim>\<open>main\<close>, lines 129 to 199.\<close>

definition main :: "env \<Rightarrow> state \<Rightarrow> outcome \<times> state" where
  "main E st =
     (case input_line AskApiKey (emits [Print MsgRule, Print MsgTitle, Print MsgRule] st) of
        (Inl e, st1) \<Rightarrow> (Raised e, st1)
      | (Inr l, st1) \<Rightarrow>
          (let key = strip l in
           if key = [] then (Returned, emit (Print MsgApiKeyRequired) st1)
           else (case input_line AskFolder st1 of
                   (Inl e, st2) \<Rightarrow> (Raised e, st2)
                 | (Inr l2, st2) \<Rightarrow>
                     (let folder = (if strip l2 = [] then py ''grok_images'' else strip l2) in
                      case init E key folder st2 of
                        (Inl e, st3) \<Rightarrow> (Raised e, st3)
                      | (Inr generator, st3) \<Rightarrow>
                          main_loop E generator 0
                            (emits [Print MsgRule, Print MsgReady, Print MsgRule, Print MsgOptions,
                                    Print MsgOptionSize, Print MsgOptionQuality, Print MsgOptionStyle]
                               st3)))))"

section \<open>Reading a trace\<close>

text \<open>The requests posted, in order.\<close>

fun posts :: "event list \<Rightarrow> http_request list" where
  "posts [] = []"
| "posts (HttpPost r # es) = r # posts es"
| "posts (e # es) = posts es"

section \<open>A concrete world\<close>

text \<open>
  Tables under which no character beyond ASCII is alphanumeric or has a lower case, a
  clock that stands still, a network that gives one fixed answer to every \<^verbatim>\<open>POST\<close> and
  one to every \<^verbatim>\<open>GET\<close>, and a file system that accepts everything.
\<close>

definition ascii_only :: unicode where
  "ascii_only = \<lparr>uni_alnum = (\<lambda>c. False), uni_lower = (\<lambda>s. s)\<rparr>"

definition moment :: datetime where
  "moment = \<lparr>year = 2024, month = 1, day = 2, hour = 3, minute = 4, second = 5\<rparr>"

definition world :: "reply \<Rightarrow> reply \<Rightarrow> env" where
  "world post get =
     \<lparr>tables = ascii_only, http_post = (\<lambda>t r. post), http_get = (\<lambda>t u. get),
      file_write = (\<lambda>t p c. True), mkdir = (\<lambda>t p. True), clock = (\<lambda>t. moment)\<rparr>"

definition ok_json :: "json \<Rightarrow> reply" where
  "ok_json j = Response \<lparr>status = 200, body_text = [], json_body = Some j, content = []\<rparr>"

definition ok_bytes :: "bytes \<Rightarrow> reply" where
  "ok_bytes c = Response \<lparr>status = 200, body_text = [], json_body = None, content = c\<rparr>"

definition grok :: generator where
  "grok = \<lparr>api_key = py ''KEY'', download_folder = py ''grok_images'',
           base_url = py ''https://x.com/i/grok''\<rparr>"

definition no_kwargs :: kwargs where
  "no_kwargs = \<lparr>kw_size = None, kw_quality = None, kw_style = None\<rparr>"

definition start :: "pystr list \<Rightarrow> state" where
  "start lines = \<lparr>trace = [], stdin = lines\<rparr>"

definition fox_response :: json where
  "fox_response = JObj [(py ''data'', JArr [JObj [(py ''url'', JStr (py ''http://example/img.png''))]])]"

definition owl_prompt :: pystr where
  "owl_prompt = py ''  A red fox, in snow; a blue owl - in rain!        tail beyond fifty''"

definition long_prompt :: pystr where
  "long_prompt = py ''a castle on a hill at dawn, oil on canvas, very detailed sky''"

section \<open>Properties of the file name\<close>

declare decimal.simps [simp del]

lemma is_digit_digit: "is_digit (digit n)"
  by (simp add: is_digit_def digit_def)

lemma decimal_digits: "list_all is_digit (decimal n)"
proof (induction n rule: decimal.induct)
  case (1 n)
  show ?case
  proof (cases "n < 10")
    case True
    then show ?thesis by (simp add: decimal.simps [of n] is_digit_digit)
  next
    case False
    with 1 show ?thesis by (simp add: decimal.simps [of n] is_digit_digit)
  qed
qed

lemma decimal_length_1: "n < 10 \<Longrightarrow> length (decimal n) = 1"
  by (simp add: decimal.simps [of n])

lemma decimal_length_2: "10 \<le> n \<Longrightarrow> n < 100 \<Longrightarrow> length (decimal n) = 2"
  by (simp add: decimal.simps [of n] decimal_length_1)

lemma decimal_length_3: "100 \<le> n \<Longrightarrow> n < 1000 \<Longrightarrow> length (decimal n) = 3"
  by (simp add: decimal.simps [of n] decimal_length_2)

lemma decimal_length_4: "1000 \<le> n \<Longrightarrow> n < 10000 \<Longrightarrow> length (decimal n) = 4"
  by (simp add: decimal.simps [of n] decimal_length_3)

lemma two_digits_length: "n < 100 \<Longrightarrow> length (two_digits n) = 2"
  by (simp add: two_digits_def decimal_length_1 decimal_length_2)

lemma two_digits_digits: "list_all is_digit (two_digits n)"
  by (simp add: two_digits_def decimal_digits is_digit_def)

lemma strftime_shape:
  assumes "valid_datetime d"
  shows "timestamp_shape (strftime d)"
proof -
  have ly: "length (decimal (year d)) = 4"
    using assms by (simp add: valid_datetime_def decimal_length_4)
  have l2: "length (two_digits (month d)) = 2" "length (two_digits (day d)) = 2"
    "length (two_digits (hour d)) = 2" "length (two_digits (minute d)) = 2"
    "length (two_digits (second d)) = 2"
    using assms by (simp_all add: valid_datetime_def two_digits_length)
  show ?thesis
    unfolding timestamp_shape_def strftime_def
    by (simp add: ly l2 nth_append decimal_digits two_digits_digits)
qed

lemma set_strip: "set (strip s) \<subseteq> set s"
proof
  fix c
  assume "c \<in> set (strip s)"
  then have "c \<in> set (dropWhile isspace (rev (dropWhile isspace s)))"
    by (simp add: strip_def)
  then have "c \<in> set (dropWhile isspace s)"
    using set_dropWhileD by fastforce
  then show "c \<in> set s"
    by (rule set_dropWhileD)
qed

lemma strip_all_space:
  assumes "list_all isspace s"
  shows "strip s = []"
proof -
  have h: "dropWhile isspace s = []"
    using assms by (simp add: list_all_iff)
  show ?thesis unfolding strip_def h by simp
qed

lemma safe_prompt_chars:
  assumes "c \<in> set (safe_prompt U prompt)"
  shows "(isalnum U c \<or> c = 95 \<or> c = 45) \<and> c \<noteq> 32"
proof -
  from assms obtain b where b: "b \<in> set (strip (filter (keep_char U) (take 50 prompt)))"
    and c: "c = (if b = 32 then 95 else b)"
    by (auto simp: safe_prompt_def replace_space_def)
  from b set_strip have "b \<in> set (filter (keep_char U) (take 50 prompt))"
    by blast
  then have "keep_char U b" by simp
  with c show ?thesis by (auto simp: keep_char_def)
qed

lemma moment_stamp: "strftime moment = py ''20240102_030405''"
  by (simp add: moment_def strftime_def two_digits_def decimal.simps digit_def py_def)

lemma valid_moment: "valid_datetime moment"
  by (simp add: valid_datetime_def moment_def)

lemma safe_fox: "safe_prompt ascii_only (py ''A red fox in snow'') = py ''A_red_fox_in_snow''"
  by (simp add: safe_prompt_def py_def keep_char_def isalnum_def ascii_alnum_def strip_def
      isspace_def replace_space_def)

text \<open>
  How \<^verbatim>\<open>strip\<close> behaves: it takes a run of white space off each end, and what is left
  neither starts nor ends with white space. This determines the result.
\<close>

lemma strip_decomposition:
  "\<exists>a b. s = a @ strip s @ b \<and> list_all isspace a \<and> list_all isspace b"
proof -
  let ?t = "dropWhile isspace s"
  have 1: "s = takeWhile isspace s @ ?t" by simp
  have "strip s @ rev (takeWhile isspace (rev ?t))
          = rev (takeWhile isspace (rev ?t) @ dropWhile isspace (rev ?t))"
    by (simp only: strip_def rev_append)
  also have "\<dots> = rev (rev ?t)"
    by (simp only: takeWhile_dropWhile_id)
  finally have 3: "?t = strip s @ rev (takeWhile isspace (rev ?t))" by simp
  have a: "list_all isspace (takeWhile isspace s)"
    by (auto simp: list_all_iff dest: set_takeWhileD)
  have b: "list_all isspace (rev (takeWhile isspace (rev ?t)))"
    by (auto simp: list_all_iff dest: set_takeWhileD)
  from 1 3 have "s = takeWhile isspace s @ strip s @ rev (takeWhile isspace (rev ?t))"
    by metis
  with a b show ?thesis by blast
qed

lemma strip_ends:
  assumes "strip s \<noteq> []"
  shows "\<not> isspace (hd (strip s)) \<and> \<not> isspace (last (strip s))"
proof -
  let ?t = "dropWhile isspace s"
  let ?u = "dropWhile isspace (rev ?t)"
  have u: "?u \<noteq> []" using assms by (simp add: strip_def)
  then have l: "\<not> isspace (hd ?u)" by (rule hd_dropWhile)
  have "last (strip s) = hd ?u"
    using u by (simp add: strip_def last_rev)
  with l have last: "\<not> isspace (last (strip s))" by simp
  have t: "?t \<noteq> []"
  proof
    assume e: "?t = []"
    have "?u = []" by (simp only: e rev.simps dropWhile.simps)
    with u show False by simp
  qed
  then have ht: "\<not> isspace (hd ?t)" by (rule hd_dropWhile)
  have "hd (strip s) = hd ?t"
  proof -
    have "rev ?t = takeWhile isspace (rev ?t) @ ?u" by simp
    then have "?t = rev ?u @ rev (takeWhile isspace (rev ?t))"
      by (metis rev_append rev_rev_ident)
    then have "hd ?t = hd (rev ?u)" using u by (metis hd_append2 rev_is_Nil_conv)
    then show ?thesis by (simp add: strip_def)
  qed
  with ht last show ?thesis by simp
qed

lemma strip_unique:
  assumes "s = a @ core @ b" and "list_all isspace a" and "list_all isspace b"
    and "core = [] \<or> \<not> isspace (hd core) \<and> \<not> isspace (last core)"
  shows "strip s = core"
proof (cases "core = []")
  case True
  with assms have "list_all isspace s" by simp
  then have "strip s = []" by (rule strip_all_space)
  with True show ?thesis by simp
next
  case False
  with assms(4) have h: "\<not> isspace (hd core)" and l: "\<not> isspace (last core)" by auto
  have 1: "dropWhile isspace s = core @ b"
  proof -
    have "dropWhile isspace (a @ core @ b) = dropWhile isspace (core @ b)"
      using assms(2) by (simp add: list_all_iff)
    also have "\<dots> = core @ b"
      using False h by (cases core) auto
    finally show ?thesis using assms(1) by simp
  qed
  have 2: "dropWhile isspace (rev (core @ b)) = rev core"
  proof -
    have "dropWhile isspace (rev b @ rev core) = dropWhile isspace (rev core)"
      using assms(3) by (intro dropWhile_append2) (auto simp: list_all_iff)
    also have "\<dots> = rev core"
      using False l by (cases "rev core") (auto simp: hd_rev [symmetric])
    finally show ?thesis by simp
  qed
  show ?thesis unfolding strip_def 1 2 by simp
qed

text \<open>The timestamp, digit by digit.\<close>

lemma two_digits_explicit:
  assumes "n < 100"
  shows "two_digits n = [48 + n div 10 mod 10, 48 + n mod 10]"
proof (cases "n < 10")
  case True
  then show ?thesis by (simp add: two_digits_def decimal.simps [of n] digit_def)
next
  case False
  with assms have "n div 10 < 10" by simp
  with False show ?thesis
    by (simp add: two_digits_def decimal.simps [of n] decimal.simps [of "n div 10"] digit_def)
qed

lemma decimal_explicit_4:
  assumes "1000 \<le> n" and "n \<le> 9999"
  shows "decimal n = [48 + n div 1000 mod 10, 48 + n div 100 mod 10, 48 + n div 10 mod 10, 48 + n mod 10]"
proof -
  have a: "\<not> n < 10" "\<not> n div 10 < 10" "\<not> n div 100 < 10" "n div 1000 < 10"
    using assms by simp_all
  have d: "n div 10 div 10 = n div 100" "n div 100 div 10 = n div 1000"
    by (simp_all add: div_mult2_eq)
  have "decimal n = decimal (n div 10) @ [digit n]"
    using a by (simp add: decimal.simps [of n])
  also have "decimal (n div 10) = decimal (n div 100) @ [digit (n div 10)]"
    using a d by (simp add: decimal.simps [of "n div 10"])
  also have "decimal (n div 100) = decimal (n div 1000) @ [digit (n div 100)]"
    using a d by (simp add: decimal.simps [of "n div 100"])
  also have "decimal (n div 1000) = [digit (n div 1000)]"
    using a by (simp add: decimal.simps [of "n div 1000"])
  finally show ?thesis by (simp add: digit_def)
qed

lemma strftime_explicit:
  assumes "valid_datetime d"
  shows "strftime d =
     [48 + year d div 1000 mod 10, 48 + year d div 100 mod 10, 48 + year d div 10 mod 10,
      48 + year d mod 10,
      48 + month d div 10 mod 10, 48 + month d mod 10,
      48 + day d div 10 mod 10, 48 + day d mod 10,
      95,
      48 + hour d div 10 mod 10, 48 + hour d mod 10,
      48 + minute d div 10 mod 10, 48 + minute d mod 10,
      48 + second d div 10 mod 10, 48 + second d mod 10]"
  using assms
  by (simp add: strftime_def valid_datetime_def decimal_explicit_4 two_digits_explicit)

lemma safe_owl: "safe_prompt ascii_only owl_prompt = py ''A_red_fox_in_snow_a_blue_owl_-_in_rain''"
  by (simp add: owl_prompt_def safe_prompt_def py_def keep_char_def isalnum_def ascii_alnum_def
      strip_def isspace_def replace_space_def)

text \<open>
  Claim C3. For every non-empty prompt, the file name that \<^verbatim>\<open>download_image\<close> computes is
  a \<^verbatim>\<open>YYYYMMDD_HHMMSS\<close> timestamp, an underscore, the sanitized prompt and \<^verbatim>\<open>.png\<close>. The
  timestamp is the year, month, day, hour, minute and second in decimal digits, with an
  underscore after the day. The sanitized part holds only alphanumeric characters,
  underscores and hyphens, and no space. It comes from the first 50 characters of the
  prompt: those that are alphanumeric, a space, a hyphen or an underscore are kept; the
  white space at both ends of what is kept is taken off, so that the rest neither starts
  nor ends with white space; and in the rest every space becomes an underscore.
\<close>

theorem filename_shape:
  assumes "prompt \<noteq> []" and "valid_datetime now"
  shows "filename U now prompt = strftime now @ py ''_'' @ safe_prompt U prompt @ py ''.png''
       \<and> timestamp_shape (strftime now)
       \<and> list_all (\<lambda>c. (isalnum U c \<or> c = 95 \<or> c = 45) \<and> c \<noteq> 32) (safe_prompt U prompt)
       \<and> safe_prompt U prompt
           = replace_space (strip (filter (\<lambda>c. isalnum U c \<or> c = 32 \<or> c = 45 \<or> c = 95)
                                          (take 50 prompt)))
       \<and> (\<exists>a core b.
             filter (\<lambda>c. isalnum U c \<or> c = 32 \<or> c = 45 \<or> c = 95) (take 50 prompt)
               = a @ core @ b
             \<and> list_all isspace a \<and> list_all isspace b
             \<and> (core = [] \<or> \<not> isspace (hd core) \<and> \<not> isspace (last core))
             \<and> safe_prompt U prompt = map (\<lambda>c. if c = 32 then 95 else c) core)
       \<and> strftime now =
           [48 + year now div 1000 mod 10, 48 + year now div 100 mod 10,
            48 + year now div 10 mod 10, 48 + year now mod 10,
            48 + month now div 10 mod 10, 48 + month now mod 10,
            48 + day now div 10 mod 10, 48 + day now mod 10,
            95,
            48 + hour now div 10 mod 10, 48 + hour now mod 10,
            48 + minute now div 10 mod 10, 48 + minute now mod 10,
            48 + second now div 10 mod 10, 48 + second now mod 10]"
proof -
  let ?kept = "filter (\<lambda>c. isalnum U c \<or> c = 32 \<or> c = 45 \<or> c = 95) (take 50 prompt)"
  have k: "keep_char U = (\<lambda>c. isalnum U c \<or> c = 32 \<or> c = 45 \<or> c = 95)"
    by (auto simp: keep_char_def fun_eq_iff)
  have 1: "filename U now prompt = strftime now @ py ''_'' @ safe_prompt U prompt @ py ''.png''"
    by (simp add: filename_def)
  have 2: "timestamp_shape (strftime now)"
    using assms(2) by (rule strftime_shape)
  have 3: "list_all (\<lambda>c. (isalnum U c \<or> c = 95 \<or> c = 45) \<and> c \<noteq> 32) (safe_prompt U prompt)"
    unfolding list_all_iff using safe_prompt_chars by blast
  have 4: "safe_prompt U prompt = replace_space (strip ?kept)"
    by (simp add: safe_prompt_def k)
  obtain a b where d: "?kept = a @ strip ?kept @ b" "list_all isspace a" "list_all isspace b"
    using strip_decomposition [of ?kept] by blast
  have e: "strip ?kept = [] \<or> \<not> isspace (hd (strip ?kept)) \<and> \<not> isspace (last (strip ?kept))"
    using strip_ends [of ?kept] by blast
  have m: "safe_prompt U prompt = map (\<lambda>c. if c = 32 then 95 else c) (strip ?kept)"
    using 4 by (simp add: replace_space_def)
  have 5: "\<exists>a core b. ?kept = a @ core @ b
             \<and> list_all isspace a \<and> list_all isspace b
             \<and> (core = [] \<or> \<not> isspace (hd core) \<and> \<not> isspace (last core))
             \<and> safe_prompt U prompt = map (\<lambda>c. if c = 32 then 95 else c) core"
    using d e m by blast
  have 6: "strftime now =
           [48 + year now div 1000 mod 10, 48 + year now div 100 mod 10,
            48 + year now div 10 mod 10, 48 + year now mod 10,
            48 + month now div 10 mod 10, 48 + month now mod 10,
            48 + day now div 10 mod 10, 48 + day now mod 10,
            95,
            48 + hour now div 10 mod 10, 48 + hour now mod 10,
            48 + minute now div 10 mod 10, 48 + minute now mod 10,
            48 + second now div 10 mod 10, 48 + second now mod 10]"
    using assms(2) by (rule strftime_explicit)
  from 1 2 3 4 5 6 show ?thesis by blast
qed

theorem filename_shape_witness:
  "py ''A red fox in snow'' \<noteq> [] \<and> owl_prompt \<noteq> [] \<and> valid_datetime moment
   \<and> filename ascii_only moment (py ''A red fox in snow'')
       = py ''20240102_030405_A_red_fox_in_snow.png''
   \<and> filename ascii_only moment owl_prompt
       = py ''20240102_030405_A_red_fox_in_snow_a_blue_owl_-_in_rain.png''
   \<and> timestamp_shape (py ''20240102_030405'')
   \<and> strftime moment = py ''20240102_030405''
   \<and> list_all (\<lambda>c. (isalnum ascii_only c \<or> c = 95 \<or> c = 45) \<and> c \<noteq> 32)
        (py ''A_red_fox_in_snow_a_blue_owl_-_in_rain'')"
proof -
  have p: "py ''A red fox in snow'' \<noteq> []" by (simp add: py_def)
  have q: "owl_prompt \<noteq> []" by (simp add: owl_prompt_def py_def)
  note t = filename_shape [OF p valid_moment, of ascii_only]
  note o = filename_shape [OF q valid_moment, of ascii_only]
  have 1: "filename ascii_only moment (py ''A red fox in snow'')
             = py ''20240102_030405_A_red_fox_in_snow.png''"
    using t [THEN conjunct1] unfolding safe_fox moment_stamp by (simp add: py_def)
  have 2: "filename ascii_only moment owl_prompt
             = py ''20240102_030405_A_red_fox_in_snow_a_blue_owl_-_in_rain.png''"
    using o [THEN conjunct1] unfolding safe_owl moment_stamp by (simp add: py_def)
  have 3: "timestamp_shape (py ''20240102_030405'')"
    using o [THEN conjunct2, THEN conjunct1] by (simp add: moment_stamp)
  have 4: "list_all (\<lambda>c. (isalnum ascii_only c \<or> c = 95 \<or> c = 45) \<and> c \<noteq> 32)
             (py ''A_red_fox_in_snow_a_blue_owl_-_in_rain'')"
    using o [THEN conjunct2, THEN conjunct2, THEN conjunct1] by (simp add: safe_owl)
  have 5: "strftime moment = py ''20240102_030405''"
    using o [THEN conjunct2, THEN conjunct2, THEN conjunct2, THEN conjunct2, THEN conjunct2]
    by (simp add: moment_def py_def)
  from p q valid_moment 1 2 3 4 5 show ?thesis by blast
qed

text \<open>
  Claim C4. For a prompt longer than 50 characters, the characters from index 50 on
  never influence the file name: whatever stands in their place, the sanitized part and
  the file name are the same.
\<close>

theorem filename_first_50:
  assumes "50 < length prompt"
  shows "safe_prompt U (take 50 prompt @ rest) = safe_prompt U prompt
       \<and> filename U now (take 50 prompt @ rest) = filename U now prompt"
  using assms by (simp add: safe_prompt_def filename_def)

lemma safe_long: "safe_prompt ascii_only long_prompt = py ''a_castle_on_a_hill_at_dawn_oil_on_canvas_very_de''"
  by (simp add: long_prompt_def safe_prompt_def py_def keep_char_def isalnum_def ascii_alnum_def
      strip_def isspace_def replace_space_def)

theorem filename_first_50_witness:
  "50 < length long_prompt
   \<and> safe_prompt ascii_only (take 50 long_prompt @ py ''tailed sea'')
       = py ''a_castle_on_a_hill_at_dawn_oil_on_canvas_very_de''
   \<and> filename ascii_only moment (take 50 long_prompt @ py ''tailed sea'')
       = filename ascii_only moment long_prompt"
proof -
  have l: "50 < length long_prompt" by (simp add: long_prompt_def py_def)
  note t = filename_first_50 [OF l, of ascii_only "py ''tailed sea''" moment]
  from l t show ?thesis by (simp add: safe_long)
qed

section \<open>Properties of the generator\<close>

lemma posts_append: "posts (xs @ ys) = posts xs @ posts ys"
  by (induction xs rule: posts.induct) simp_all

lemma post_image_exn:
  "encodable req \<Longrightarrow> post_image E req st = (Inl e, st') \<Longrightarrow> is_request_exception e"
  by (auto simp: post_image_def raise_for_status_def Let_def
      split: reply.splits sum.splits option.splits if_splits)

lemma post_image_trace: "post_image E req st = (r, st') \<Longrightarrow> trace st' = trace st @ [HttpPost req]"
  by (auto simp: post_image_def Let_def split: reply.splits sum.splits option.splits if_splits)

lemma py_latin1: "list_all (\<lambda>c. c < 256) (py s)"
  by (simp add: py_def list_all_iff)

lemma encodable_headers:
  "encodable \<lparr>req_url = u, req_headers = headers g, req_json = j\<rparr> = latin1 (api_key g)"
  by (simp add: encodable_def headers_def latin1_def py_latin1)

text \<open>
  With an API key that latin-1 can encode, no exception leaves \<^verbatim>\<open>generate_image\<close>. With
  any other key, and a server that answers, \<^verbatim>\<open>UnicodeEncodeError\<close> leaves it.
\<close>

lemma generate_image_unicode_key:
  assumes "\<not> latin1 (api_key g)"
    and "http_post E (trace st @ [Print (MsgGenerating prompt)])
           \<lparr>req_url = base_url g, req_headers = headers g,
            req_json = payload model prompt size' quality style\<rparr> = Response r"
  shows "fst (generate_image E g prompt model size' quality style st) = Inl UnicodeEncodeError"
  using assms by (simp add: generate_image_def post_image_def encodable_headers)

lemma generate_image_returns:
  assumes "latin1 (api_key g)"
  shows "\<exists>j st'. generate_image E g prompt model size' quality style st = (Inr j, st')"
proof -
  let ?req = "\<lparr>req_url = base_url g, req_headers = headers g,
               req_json = payload model prompt size' quality style\<rparr>"
  obtain r st1 where p: "post_image E ?req (emit (Print (MsgGenerating prompt)) st) = (r, st1)"
    by (cases "post_image E ?req (emit (Print (MsgGenerating prompt)) st)")
  show ?thesis
  proof (cases r)
    case (Inl e)
    with p assms have "is_request_exception e"
      using post_image_exn [of ?req E _ e st1] by (simp add: encodable_headers)
    with p Inl show ?thesis by (simp add: generate_image_def Let_def)
  next
    case (Inr j)
    with p show ?thesis by (simp add: generate_image_def Let_def)
  qed
qed

lemma download_image_returns:
  "\<exists>r st'. download_image E g image_url prompt st = (Inr r, st')"
  by (cases "fetch_image E g image_url prompt st")
     (auto simp: download_image_def split: sum.splits)

lemma fetch_image_path:
  "fetch_image E g image_url prompt st = (Inr path, st') \<Longrightarrow>
   path = path_join (download_folder g) (filename (tables E) (clock E (trace st)) prompt)"
  by (auto simp: fetch_image_def Let_def split: json.splits reply.splits sum.splits if_splits)

lemma download_image_path:
  "download_image E g image_url prompt st = (Inr (Some path), st') \<Longrightarrow>
   path = path_join (download_folder g) (filename (tables E) (clock E (trace st)) prompt)"
  by (auto simp: download_image_def split: prod.splits sum.splits dest: fetch_image_path)

lemma path_join_nonempty: "b \<noteq> [] \<Longrightarrow> path_join a b \<noteq> []"
  by (simp add: path_join_def)

lemma filename_nonempty: "filename U now prompt \<noteq> []"
  by (simp add: filename_def py_def)

text \<open>
  Claim C8. Every call of \<^verbatim>\<open>generate_image\<close> posts exactly one request. Its headers are
  \<^verbatim>\<open>Authorization: Bearer <api_key>\<close> and \<^verbatim>\<open>Content-Type: application/json\<close>; its JSON
  body has exactly the keys \<^verbatim>\<open>model\<close>, \<^verbatim>\<open>prompt\<close>, \<^verbatim>\<open>n\<close>, \<^verbatim>\<open>size\<close>, \<^verbatim>\<open>quality\<close>,
  \<^verbatim>\<open>style\<close>, and \<^verbatim>\<open>n\<close> is 1.
\<close>

theorem generate_image_request:
  "posts (trace (snd (generate_image E g prompt model size' quality style st)))
     = posts (trace st) @
       [\<lparr>req_url = base_url g,
         req_headers = [(py ''Authorization'', py ''Bearer '' @ api_key g),
                        (py ''Content-Type'', py ''application/json'')],
         req_json = [(py ''model'', JStr model), (py ''prompt'', JStr prompt), (py ''n'', JNum 1),
                     (py ''size'', JStr size'), (py ''quality'', JStr quality),
                     (py ''style'', JStr style)]\<rparr>]"
proof -
  let ?req = "\<lparr>req_url = base_url g, req_headers = headers g,
               req_json = payload model prompt size' quality style\<rparr>"
  obtain r st1 where p: "post_image E ?req (emit (Print (MsgGenerating prompt)) st) = (r, st1)"
    by (cases "post_image E ?req (emit (Print (MsgGenerating prompt)) st)")
  then have t: "trace st1 = trace st @ [Print (MsgGenerating prompt), HttpPost ?req]"
    by (simp add: post_image_trace)
  have "posts (trace (snd (generate_image E g prompt model size' quality style st)))
          = posts (trace st) @ [?req]"
    using p t
    by (simp add: generate_image_def Let_def posts_append split: sum.splits option.splits)
  then show ?thesis by (simp add: headers_def payload_def)
qed


section \<open>Properties of the orchestration\<close>

lemma has_images_list:
  assumes "map_of kvs (py ''data'') = Some (JArr (x # xs))"
  shows "has_images (JObj kvs) = Inr True"
proof -
  from assms have "(py ''data'', JArr (x # xs)) \<in> set kvs" by (rule map_of_SomeD)
  then have "py ''data'' \<in> fst ` set kvs" by force
  moreover from this have "kvs \<noteq> []" by auto
  ultimately show ?thesis using assms by (simp add: has_images_def)
qed

lemma has_images_absent:
  "has_images JNull = Inr False"
  "map_of kvs (py ''data'') = None \<Longrightarrow> has_images (JObj kvs) = Inr False"
  "map_of kvs (py ''data'') = Some (JArr []) \<Longrightarrow> has_images (JObj kvs) = Inr False"
proof -
  show "has_images JNull = Inr False" by (simp add: has_images_def)
  show "has_images (JObj kvs) = Inr False" if "map_of kvs (py ''data'') = None"
    using that by (simp add: has_images_def map_of_eq_None_iff)
  show "has_images (JObj kvs) = Inr False" if h: "map_of kvs (py ''data'') = Some (JArr [])"
  proof -
    from h have "(py ''data'', JArr []) \<in> set kvs" by (rule map_of_SomeD)
    then have "py ''data'' \<in> fst ` set kvs" by force
    with h show ?thesis by (simp add: has_images_def)
  qed
qed

lemma generate_and_download_first_url:
  assumes "generate_image E g prompt (py ''grok-2-vision-1212'')
             (or_default (kw_size kw) ''1024x1024'') (or_default (kw_quality kw) ''medium'')
             (or_default (kw_style kw) ''natural'') st = (Inr (JObj kvs), st1)"
    and "map_of kvs (py ''data'') = Some (JArr (JObj fs # xs))"
    and "map_of fs (py ''url'') = Some u"
  shows "generate_and_download E g prompt kw st = download_image E g u prompt st1"
  using assms has_images_list [OF assms(2)]
  by (simp add: generate_and_download_def first_url_def)

lemma generate_and_download_no_images:
  assumes "generate_image E g prompt (py ''grok-2-vision-1212'')
             (or_default (kw_size kw) ''1024x1024'') (or_default (kw_quality kw) ''medium'')
             (or_default (kw_style kw) ''natural'') st = (Inr result, st1)"
    and "has_images result = Inr False"
  shows "generate_and_download E g prompt kw st = (Inr None, emit (Print MsgNoImageUrl) st1)"
  using assms by (simp add: generate_and_download_def)

lemma generate_and_download_post_failed:
  assumes "http_post E (trace st @ [Print (MsgGenerating prompt)])
             \<lparr>req_url = base_url g, req_headers = headers g,
              req_json = payload (py ''grok-2-vision-1212'') prompt
                           (or_default (kw_size kw) ''1024x1024'')
                           (or_default (kw_quality kw) ''medium'')
                           (or_default (kw_style kw) ''natural'')\<rparr> = Failed d"
  shows "fst (generate_and_download E g prompt kw st) = Inr None"
  using assms
  by (simp add: generate_and_download_def generate_image_def post_image_def has_images_def)

lemmas world_simps =
  world_def ok_json_def ok_bytes_def grok_def no_kwargs_def start_def ascii_only_def moment_def

lemmas run_simps =
  generate_and_download_def generate_image_def post_image_def raise_for_status_def
  encodable_def latin1_def py_latin1
  download_image_def fetch_image_def has_images_def first_url_def or_default_def
  headers_def payload_def emit_def emits_def input_line_def Let_def

declare main_loop.simps [simp del]

lemmas loop_simps =
  main_def main_loop.simps loop_body_def read_kwargs_def read_option_def count_result_def
  truthy_path_def exit_keywords_def init_def strip_def isspace_def lower_def ascii_lower_def

text \<open>
  Claim C1 says that a response whose \<^verbatim>\<open>data\<close> has at least one entry makes the
  orchestration call the Downloader once, with the URL of the first entry, and that
  otherwise it reports that no image URL was found and returns \<^verbatim>\<open>None\<close>. For a
  well-formed response both hold (\<open>generate_and_download_first_url\<close> and
  \<open>generate_and_download_no_images\<close> above). They fail on two bodies that the API Client
  returns as they are. On \<^verbatim>\<open>{"data": [{}]}\<close> the list has an entry, the test of line 118
  passes and line 119 raises \<^verbatim>\<open>KeyError\<close>. On \<^verbatim>\<open>{"data": null}\<close> there is no list, and
  \<^verbatim>\<open>len(None)\<close> on line 118 raises \<^verbatim>\<open>TypeError\<close>. Either way the trace ends with the
  \<^verbatim>\<open>POST\<close>: the Downloader is not called, nothing is reported, nothing is returned.
\<close>

theorem malformed_response_raises:
  "generate_and_download (world (ok_json (JObj [(py ''data'', JArr [JObj []])])) (ok_bytes []))
     grok (py ''fox'') no_kwargs (start [])
   = (Inl KeyError,
      \<lparr>trace = [Print (MsgGenerating (py ''fox'')),
                HttpPost \<lparr>req_url = base_url grok, req_headers = headers grok,
                          req_json = payload (py ''grok-2-vision-1212'') (py ''fox'')
                                       (py ''1024x1024'') (py ''medium'') (py ''natural'')\<rparr>],
       stdin = []\<rparr>)
   \<and> generate_and_download (world (ok_json (JObj [(py ''data'', JNull)])) (ok_bytes []))
       grok (py ''fox'') no_kwargs (start [])
     = (Inl TypeError,
        \<lparr>trace = [Print (MsgGenerating (py ''fox'')),
                  HttpPost \<lparr>req_url = base_url grok, req_headers = headers grok,
                            req_json = payload (py ''grok-2-vision-1212'') (py ''fox'')
                                         (py ''1024x1024'') (py ''medium'') (py ''natural'')\<rparr>],
         stdin = []\<rparr>)"
  by (simp add: run_simps world_simps)

text \<open>
  Claim C2 says that every failure is caught where it occurs and that no exception
  leaves \<^verbatim>\<open>generate_image\<close>, \<^verbatim>\<open>download_image\<close> or \<^verbatim>\<open>generate_and_download\<close>. For
  \<^verbatim>\<open>download_image\<close> this is \<open>download_image_returns\<close> above, and for \<^verbatim>\<open>generate_image\<close>
  with an API key that latin-1 can encode it is \<open>generate_image_returns\<close> (with another
  key \<^verbatim>\<open>UnicodeEncodeError\<close> leaves \<^verbatim>\<open>generate_image\<close>: \<open>generate_image_unicode_key\<close>).
  \<^verbatim>\<open>generate_and_download\<close> has no handler: a JSON body that lacks the expected fields
  (\<^verbatim>\<open>{"data": null}\<close>, \<^verbatim>\<open>{"data": [{}]}\<close>, \<^verbatim>\<open>true\<close>) makes line 118 or 119 raise, and
  the exception leaves \<^verbatim>\<open>generate_and_download\<close> and ends \<^verbatim>\<open>main\<close>.
\<close>

theorem exception_reaches_main:
  "fst (generate_and_download (world (ok_json (JObj [(py ''data'', JNull)])) (ok_bytes []))
          grok (py ''fox'') no_kwargs (start [])) = Inl TypeError
   \<and> fst (main (world (ok_json (JObj [(py ''data'', JNull)])) (ok_bytes []))
             (start [py ''KEY'', [], py ''fox'', py ''n''])) = Raised TypeError
   \<and> fst (main (world (ok_json (JObj [(py ''data'', JArr [JObj []])])) (ok_bytes []))
             (start [py ''KEY'', [], py ''fox'', py ''n''])) = Raised KeyError
   \<and> fst (main (world (ok_json (JBool True)) (ok_bytes []))
             (start [py ''KEY'', [], py ''fox'', py ''n''])) = Raised TypeError"
  by (simp add: loop_simps run_simps world_simps py_def)

section \<open>Properties of the downloader\<close>

lemma only_spaces_kept:
  assumes "list_all (\<lambda>c. \<not> isalnum U c \<and> c \<noteq> 45 \<and> c \<noteq> 95) s"
  shows "list_all isspace (filter (keep_char U) s)"
  using assms by (auto simp: list_all_iff keep_char_def isspace_def)

lemma safe_prompt_empty:
  assumes "list_all (\<lambda>c. \<not> isalnum U c \<and> c \<noteq> 45 \<and> c \<noteq> 95) (take 50 prompt)"
  shows "safe_prompt U prompt = []"
  using strip_all_space [OF only_spaces_kept [OF assms]]
  by (simp add: safe_prompt_def replace_space_def)

text \<open>
  Claim C10. When the first 50 characters of a non-empty prompt hold no alphanumeric
  character, hyphen or underscore, the sanitized part is empty and the file name is
  \<^verbatim>\<open><timestamp>_.png\<close>. The Downloader goes on all the same: it sends the \<^verbatim>\<open>GET\<close>, and
  when the answer is no error status and the write succeeds it saves the file under
  that name and returns its path.
\<close>

theorem punctuation_prompt:
  fixes E :: env and g :: generator and st :: state
  defines "path \<equiv> path_join (download_folder g) (strftime (clock E (trace st)) @ py ''_.png'')"
  assumes "prompt \<noteq> []"
    and "list_all (\<lambda>c. \<not> isalnum (tables E) c \<and> c \<noteq> 45 \<and> c \<noteq> 95) (take 50 prompt)"
    and "http_get E (trace st @ [Print MsgDownloading]) u = Response r"
    and "status r < 400 \<or> 600 \<le> status r"
    and "file_write E (trace st @ [Print MsgDownloading, HttpGet u]) path (content r)"
  shows "safe_prompt (tables E) prompt = []
       \<and> filename (tables E) (clock E (trace st)) prompt = strftime (clock E (trace st)) @ py ''_.png''
       \<and> download_image E g (JStr u) prompt st
           = (Inr (Some path),
              st\<lparr>trace := trace st @ [Print MsgDownloading, HttpGet u,
                                     WriteFile path (content r), Print (MsgSaved path)]\<rparr>)"
proof -
  have s: "safe_prompt (tables E) prompt = []"
    using assms(3) by (rule safe_prompt_empty)
  have f: "filename (tables E) (clock E (trace st)) prompt = strftime (clock E (trace st)) @ py ''_.png''"
    by (simp add: filename_def s py_def)
  have "download_image E g (JStr u) prompt st
           = (Inr (Some path),
              st\<lparr>trace := trace st @ [Print MsgDownloading, HttpGet u,
                                     WriteFile path (content r), Print (MsgSaved path)]\<rparr>)"
    using assms(4,5,6) unfolding path_def
    by (auto simp: download_image_def fetch_image_def f raise_for_status_def emit_def Let_def)
  with s f show ?thesis by simp
qed

theorem punctuation_prompt_witness:
  "py ''?!...'' \<noteq> []
   \<and> list_all (\<lambda>c. \<not> isalnum ascii_only c \<and> c \<noteq> 45 \<and> c \<noteq> 95) (take 50 (py ''?!...''))
   \<and> safe_prompt ascii_only (py ''?!...'') = []
   \<and> download_image (world (Failed []) (ok_bytes [80, 78, 71])) grok (JStr (py ''http://example/img.png''))
        (py ''?!...'') (start [])
      = (Inr (Some (py ''grok_images/20240102_030405_.png'')),
         \<lparr>trace = [Print MsgDownloading, HttpGet (py ''http://example/img.png''),
                   WriteFile (py ''grok_images/20240102_030405_.png'') [80, 78, 71],
                   Print (MsgSaved (py ''grok_images/20240102_030405_.png''))],
          stdin = []\<rparr>)"
proof -
  let ?E = "world (Failed []) (ok_bytes [80, 78, 71])"
  let ?r = "\<lparr>status = 200, body_text = [], json_body = None, content = [80, 78, 71]\<rparr>"
  have t: "tables ?E = ascii_only" by (simp add: world_def)
  have 1: "py ''?!...'' \<noteq> []" by (simp add: py_def)
  have 2: "list_all (\<lambda>c. \<not> isalnum (tables ?E) c \<and> c \<noteq> 45 \<and> c \<noteq> 95) (take 50 (py ''?!...''))"
    by (simp add: t py_def isalnum_def ascii_alnum_def)
  have 3: "http_get ?E (trace (start []) @ [Print MsgDownloading]) (py ''http://example/img.png'') = Response ?r"
    by (simp add: world_def ok_bytes_def)
  have 4: "status ?r < 400 \<or> 600 \<le> status ?r" by simp
  have 5: "file_write ?E (trace (start []) @ [Print MsgDownloading, HttpGet (py ''http://example/img.png'')])
             (path_join (download_folder grok) (strftime (clock ?E (trace (start []))) @ py ''_.png''))
             (content ?r)"
    by (simp add: world_def)
  have c: "clock ?E (trace (start [])) = moment" by (simp add: world_def)
  have p: "path_join (download_folder grok) (strftime moment @ py ''_.png'')
             = py ''grok_images/20240102_030405_.png''"
    unfolding moment_stamp by (simp add: path_join_def grok_def py_def)
  note inst = punctuation_prompt [OF 1 2 3 4 5]
  from 1 2 inst show ?thesis
    unfolding c p t by (simp add: start_def)
qed

section \<open>Properties of the interactive loop\<close>

lemma input_line_Cons:
  "stdin st = l # ls \<Longrightarrow>
   input_line q st = (Inr l, st\<lparr>trace := trace st @ [Ask q], stdin := ls\<rparr>)"
  by (simp add: input_line_def emit_def)

lemma lower_empty: "lower U [] = []"
  by (simp add: lower_def)

lemma empty_not_exit: "[] \<notin> set exit_keywords"
  by (simp add: exit_keywords_def py_def)

lemma quit_is_exit: "lower U (strip (py ''quit'')) \<in> set exit_keywords"
  by (simp add: exit_keywords_def py_def strip_def isspace_def lower_def ascii_lower_def)

lemma generate_and_download_path_nonempty:
  assumes "generate_and_download E g prompt kw st = (Inr (Some path), st')"
  shows "path \<noteq> []"
proof -
  from assms obtain u st1 where "download_image E g u prompt st1 = (Inr (Some path), st')"
    by (auto simp: generate_and_download_def emit_def
        split: prod.splits sum.splits bool.splits)
  then have "path = path_join (download_folder g) (filename (tables E) (clock E (trace st1)) prompt)"
    by (rule download_image_path)
  then show ?thesis
    by (simp add: path_join_nonempty filename_nonempty)
qed

lemmas text_simps = py_def strip_def isspace_def lower_def ascii_lower_def exit_keywords_def

text \<open>
  Claim C5. In a turn of the loop that reaches the orchestration, the counter goes up by
  one exactly when \<^verbatim>\<open>generate_and_download\<close> returns a file path; when it returns
  \<^verbatim>\<open>None\<close>, as it does when the generation call fails, the counter stays as it was.
  (\<^verbatim>\<open>if filepath:\<close> tests for a non-empty string; a returned path is never empty.)
\<close>

theorem counter_counts_paths:
  assumes "input_line AskPrompt (emit (Print MsgSeparator) st) = (Inr l, st1)"
    and "lower (tables E) (strip l) \<notin> set exit_keywords"
    and "strip l \<noteq> []"
    and "read_kwargs (tables E) st1 = (Inr kw, st2)"
    and "generate_and_download E g (strip l) kw st2 = (Inr filepath, st3)"
  shows "fst (loop_body E g image_count st)
           = Continue (case filepath of None \<Rightarrow> image_count | Some path \<Rightarrow> image_count + 1)"
proof (cases filepath)
  case None
  with assms show ?thesis
    by (simp add: loop_body_def count_result_def truthy_path_def)
next
  case (Some path)
  with assms(5) have "path \<noteq> []"
    by (simp add: generate_and_download_path_nonempty)
  with Some assms show ?thesis
    by (simp add: loop_body_def count_result_def truthy_path_def)
qed

theorem counter_counts_paths_witness:
  "fst (loop_body (world (Failed (py ''timeout'')) (ok_bytes [])) grok 3 (start [py ''fox'', py ''n'']))
     = Continue 3
   \<and> fst (loop_body (world (ok_json fox_response) (ok_bytes [80, 78, 71])) grok 3
            (start [py ''fox'', py ''n'']))
     = Continue 4"
proof
  let ?st1 = "\<lparr>trace = [Print MsgSeparator, Ask AskPrompt], stdin = [py ''n'']\<rparr>"
  let ?st2 = "\<lparr>trace = [Print MsgSeparator, Ask AskPrompt, Ask AskCustom], stdin = []\<rparr>"
  have h1: "input_line AskPrompt (emit (Print MsgSeparator) (start [py ''fox'', py ''n'']))
              = (Inr (py ''fox''), ?st1)"
    by (simp add: input_line_def emit_def start_def)
  have h3: "strip (py ''fox'') \<noteq> []"
    by (simp add: text_simps)
  have s: "strip (py ''fox'') = py ''fox''"
    by (simp add: text_simps)
  {
    let ?E = "world (Failed (py ''timeout'')) (ok_bytes [])"
    have h2: "lower (tables ?E) (strip (py ''fox'')) \<notin> set exit_keywords"
      by (simp add: text_simps)
    have h4: "read_kwargs (tables ?E) ?st1 = (Inr no_kwargs, ?st2)"
      by (simp add: read_kwargs_def input_line_def emit_def no_kwargs_def text_simps)
    have "fst (generate_and_download ?E grok (strip (py ''fox'')) no_kwargs ?st2) = Inr None"
      unfolding s by (simp add: run_simps world_simps)
    then have h5: "generate_and_download ?E grok (strip (py ''fox'')) no_kwargs ?st2
                     = (Inr None, snd (generate_and_download ?E grok (strip (py ''fox'')) no_kwargs ?st2))"
      by (simp add: prod_eq_iff)
    from counter_counts_paths [OF h1 h2 h3 h4 h5, of 3]
    show "fst (loop_body ?E grok 3 (start [py ''fox'', py ''n''])) = Continue 3"
      by simp
  }
  {
    let ?E = "world (ok_json fox_response) (ok_bytes [80, 78, 71])"
    have h2: "lower (tables ?E) (strip (py ''fox'')) \<notin> set exit_keywords"
      by (simp add: text_simps)
    have h4: "read_kwargs (tables ?E) ?st1 = (Inr no_kwargs, ?st2)"
      by (simp add: read_kwargs_def input_line_def emit_def no_kwargs_def text_simps)
    have "fst (generate_and_download ?E grok (strip (py ''fox'')) no_kwargs ?st2)
            = Inr (Some (path_join (download_folder grok) (filename ascii_only moment (py ''fox''))))"
      unfolding s by (simp add: run_simps world_simps fox_response_def)
    then have h5: "generate_and_download ?E grok (strip (py ''fox'')) no_kwargs ?st2
                     = (Inr (Some (path_join (download_folder grok) (filename ascii_only moment (py ''fox'')))),
                        snd (generate_and_download ?E grok (strip (py ''fox'')) no_kwargs ?st2))"
      by (simp add: prod_eq_iff)
    from counter_counts_paths [OF h1 h2 h3 h4 h5, of 3]
    show "fst (loop_body ?E grok 3 (start [py ''fox'', py ''n''])) = Continue 4"
      by simp
  }
qed

text \<open>
  Claim C6. When the line read at the prompt, stripped and lowered, is \<^verbatim>\<open>quit\<close>,
  \<^verbatim>\<open>exit\<close> or \<^verbatim>\<open>q\<close>, the loop ends at once: it prints the count and does nothing else,
  so no network call is made for that line. With \<^verbatim>\<open>quit\<close> as the first prompt, \<^verbatim>\<open>main\<close>
  reports 0 images and its whole trace holds no network call.
\<close>

theorem exit_keyword_stops:
  "(stdin st = l # ls \<and> lower (tables E) (strip l) \<in> set exit_keywords \<longrightarrow>
      main_loop E g image_count st
        = (Returned,
           st\<lparr>trace := trace st @ [Print MsgSeparator, Ask AskPrompt, Print (MsgGoodbye image_count)],
              stdin := ls\<rparr>))
   \<and> (strip key \<noteq> [] \<and>
      mkdir E [Print MsgRule, Print MsgTitle, Print MsgRule, Ask AskApiKey, Ask AskFolder]
        (if strip folder = [] then py ''grok_images'' else strip folder) \<longrightarrow>
      main E (start (key # folder # py ''quit'' # rest))
        = (Returned,
           \<lparr>trace = [Print MsgRule, Print MsgTitle, Print MsgRule, Ask AskApiKey, Ask AskFolder,
                     Mkdir (if strip folder = [] then py ''grok_images'' else strip folder),
                     Print (MsgFolder (if strip folder = [] then py ''grok_images'' else strip folder)),
                     Print MsgRule, Print MsgReady, Print MsgRule, Print MsgOptions,
                     Print MsgOptionSize, Print MsgOptionQuality, Print MsgOptionStyle,
                     Print MsgSeparator, Ask AskPrompt, Print (MsgGoodbye 0)],
            stdin = rest\<rparr>))"
proof (intro conjI impI)
  assume a: "stdin st = l # ls \<and> lower (tables E) (strip l) \<in> set exit_keywords"
  then have i: "input_line AskPrompt (emit (Print MsgSeparator) st)
             = (Inr l, st\<lparr>trace := trace st @ [Print MsgSeparator, Ask AskPrompt], stdin := ls\<rparr>)"
    by (simp add: input_line_def emit_def)
  have b: "loop_body E g image_count st
           = (Break, st\<lparr>trace := trace st @ [Print MsgSeparator, Ask AskPrompt,
                                              Print (MsgGoodbye image_count)], stdin := ls\<rparr>)"
    using a unfolding loop_body_def i by (simp add: emit_def)
  show "main_loop E g image_count st
        = (Returned,
           st\<lparr>trace := trace st @ [Print MsgSeparator, Ask AskPrompt, Print (MsgGoodbye image_count)],
              stdin := ls\<rparr>)"
    by (subst main_loop.simps) (simp add: b)
next
  let ?f = "if strip folder = [] then py ''grok_images'' else strip folder"
  assume a: "strip key \<noteq> [] \<and>
      mkdir E [Print MsgRule, Print MsgTitle, Print MsgRule, Ask AskApiKey, Ask AskFolder] ?f"
  let ?g = "\<lparr>api_key = strip key, download_folder = ?f, base_url = py ''https://x.com/i/grok''\<rparr>"
  let ?st = "\<lparr>trace = [Print MsgRule, Print MsgTitle, Print MsgRule, Ask AskApiKey, Ask AskFolder,
                     Mkdir ?f, Print (MsgFolder ?f),
                     Print MsgRule, Print MsgReady, Print MsgRule, Print MsgOptions,
                     Print MsgOptionSize, Print MsgOptionQuality, Print MsgOptionStyle],
             stdin = py ''quit'' # rest\<rparr>"
  have m: "main E (start (key # folder # py ''quit'' # rest)) = main_loop E ?g 0 ?st"
    using a by (simp add: main_def input_line_def emits_def emit_def start_def init_def Let_def)
  have b: "loop_body E ?g 0 ?st
           = (Break, ?st\<lparr>trace := trace ?st @ [Print MsgSeparator, Ask AskPrompt,
                                              Print (MsgGoodbye 0)], stdin := rest\<rparr>)"
    by (simp add: loop_body_def input_line_def emit_def quit_is_exit)
  show "main E (start (key # folder # py ''quit'' # rest))
        = (Returned,
           \<lparr>trace = [Print MsgRule, Print MsgTitle, Print MsgRule, Ask AskApiKey, Ask AskFolder,
                     Mkdir ?f, Print (MsgFolder ?f),
                     Print MsgRule, Print MsgReady, Print MsgRule, Print MsgOptions,
                     Print MsgOptionSize, Print MsgOptionQuality, Print MsgOptionStyle,
                     Print MsgSeparator, Ask AskPrompt, Print (MsgGoodbye 0)],
            stdin = rest\<rparr>)"
    unfolding m by (subst main_loop.simps) (simp add: b)
qed

theorem exit_keyword_stops_witness:
  "lower ascii_only (strip (py '' QUIT '')) \<in> set exit_keywords
   \<and> main_loop (world (Failed []) (Failed [])) grok 3 (start [py '' QUIT '', py ''fox''])
       = (Returned,
          \<lparr>trace = [Print MsgSeparator, Ask AskPrompt, Print (MsgGoodbye 3)], stdin = [py ''fox'']\<rparr>)
   \<and> main (world (Failed []) (Failed [])) (start [py ''KEY'', [], py ''quit''])
       = (Returned,
          \<lparr>trace = [Print MsgRule, Print MsgTitle, Print MsgRule, Ask AskApiKey, Ask AskFolder,
                    Mkdir (py ''grok_images''), Print (MsgFolder (py ''grok_images'')),
                    Print MsgRule, Print MsgReady, Print MsgRule, Print MsgOptions,
                    Print MsgOptionSize, Print MsgOptionQuality, Print MsgOptionStyle,
                    Print MsgSeparator, Ask AskPrompt, Print (MsgGoodbye 0)],
           stdin = []\<rparr>)"
proof -
  let ?E = "world (Failed []) (Failed [])"
  note inst = exit_keyword_stops [where st = "start [py '' QUIT '', py ''fox'']"
      and l = "py '' QUIT ''" and ls = "[py ''fox'']" and E = ?E and g = grok and image_count = 3
      and key = "py ''KEY''" and folder = "[]" and rest = "[]"]
  have 1: "lower ascii_only (strip (py '' QUIT '')) \<in> set exit_keywords"
    by (simp add: text_simps)
  have a: "stdin (start [py '' QUIT '', py ''fox'']) = py '' QUIT '' # [py ''fox'']
           \<and> lower (tables ?E) (strip (py '' QUIT '')) \<in> set exit_keywords"
    using 1 by (simp add: start_def world_def)
  have b: "strip (py ''KEY'') \<noteq> [] \<and>
      mkdir ?E [Print MsgRule, Print MsgTitle, Print MsgRule, Ask AskApiKey, Ask AskFolder]
        (if strip [] = [] then py ''grok_images'' else strip [])"
    by (simp add: world_def text_simps)
  have 2: "main_loop ?E grok 3 (start [py '' QUIT '', py ''fox''])
       = (Returned,
          \<lparr>trace = [Print MsgSeparator, Ask AskPrompt, Print (MsgGoodbye 3)], stdin = [py ''fox'']\<rparr>)"
    using inst [THEN conjunct1, THEN mp, OF a] by (simp add: start_def)
  have e: "strip [] = []" by (simp add: strip_def)
  have 3: "main ?E (start [py ''KEY'', [], py ''quit''])
       = (Returned,
          \<lparr>trace = [Print MsgRule, Print MsgTitle, Print MsgRule, Ask AskApiKey, Ask AskFolder,
                    Mkdir (py ''grok_images''), Print (MsgFolder (py ''grok_images'')),
                    Print MsgRule, Print MsgReady, Print MsgRule, Print MsgOptions,
                    Print MsgOptionSize, Print MsgOptionQuality, Print MsgOptionStyle,
                    Print MsgSeparator, Ask AskPrompt, Print (MsgGoodbye 0)],
           stdin = []\<rparr>)"
    using inst [THEN conjunct2, THEN mp, OF b] unfolding e by simp
  from 1 2 3 show ?thesis by blast
qed

text \<open>
  Claim C7. An empty prompt line makes the loop print the warning and read the next
  prompt: the turn adds three events to the trace, none of them a call of the
  orchestration, and the loop goes on with the same count.
\<close>

theorem empty_prompt_continues:
  assumes "stdin st = l # ls" and "strip l = []"
  shows "loop_body E g image_count st
           = (Continue image_count,
              st\<lparr>trace := trace st @ [Print MsgSeparator, Ask AskPrompt, Print MsgPromptEmpty],
                 stdin := ls\<rparr>)
       \<and> main_loop E g image_count st
           = main_loop E g image_count
               (st\<lparr>trace := trace st @ [Print MsgSeparator, Ask AskPrompt, Print MsgPromptEmpty],
                  stdin := ls\<rparr>)"
proof -
  have i: "input_line AskPrompt (emit (Print MsgSeparator) st)
             = (Inr l, st\<lparr>trace := trace st @ [Print MsgSeparator, Ask AskPrompt], stdin := ls\<rparr>)"
    using assms(1) by (simp add: input_line_def emit_def)
  have b: "loop_body E g image_count st
           = (Continue image_count,
              st\<lparr>trace := trace st @ [Print MsgSeparator, Ask AskPrompt, Print MsgPromptEmpty],
                 stdin := ls\<rparr>)"
    using assms(2) unfolding loop_body_def i by (simp add: lower_empty empty_not_exit emit_def)
  show ?thesis
    by (subst main_loop.simps) (simp add: b)
qed

theorem empty_prompt_continues_witness:
  "stdin (start [py ''   '', py ''quit'']) = py ''   '' # [py ''quit'']
   \<and> strip (py ''   '') = []
   \<and> loop_body (world (Failed []) (Failed [])) grok 3 (start [py ''   '', py ''quit''])
       = (Continue 3,
          \<lparr>trace = [Print MsgSeparator, Ask AskPrompt, Print MsgPromptEmpty], stdin = [py ''quit'']\<rparr>)"
proof -
  have 1: "stdin (start [py ''   '', py ''quit'']) = py ''   '' # [py ''quit'']"
    by (simp add: start_def)
  have 2: "strip (py ''   '') = []"
    by (simp add: text_simps)
  from empty_prompt_continues [OF 1 2, of "world (Failed []) (Failed [])" grok 3]
  have "loop_body (world (Failed []) (Failed [])) grok 3 (start [py ''   '', py ''quit''])
       = (Continue 3,
          \<lparr>trace = [Print MsgSeparator, Ask AskPrompt, Print MsgPromptEmpty], stdin = [py ''quit'']\<rparr>)"
    by (simp add: start_def)
  with 1 2 show ?thesis by blast
qed

text \<open>
  Claim C9. When the API key is empty after stripping, \<^verbatim>\<open>main\<close> prints the error and
  returns: the trace holds the banner, the question and the error, so no folder is made,
  no generator is built and no network call happens.
\<close>

theorem empty_api_key_returns:
  assumes "stdin st = l # ls" and "strip l = []"
  shows "main E st
           = (Returned,
              st\<lparr>trace := trace st @ [Print MsgRule, Print MsgTitle, Print MsgRule,
                                     Ask AskApiKey, Print MsgApiKeyRequired],
                 stdin := ls\<rparr>)"
  using assms by (simp add: main_def input_line_def emits_def emit_def)

theorem empty_api_key_returns_witness:
  "stdin (start [py '' '', py ''fox'']) = py '' '' # [py ''fox'']
   \<and> strip (py '' '') = []
   \<and> main (world (Failed []) (Failed [])) (start [py '' '', py ''fox''])
       = (Returned,
          \<lparr>trace = [Print MsgRule, Print MsgTitle, Print MsgRule, Ask AskApiKey,
                    Print MsgApiKeyRequired],
           stdin = [py ''fox'']\<rparr>)"
proof -
  have 1: "stdin (start [py '' '', py ''fox'']) = py '' '' # [py ''fox'']"
    by (simp add: start_def)
  have 2: "strip (py '' '') = []"
    by (simp add: text_simps)
  from empty_api_key_returns [OF 1 2, of "world (Failed []) (Failed [])"]
  have "main (world (Failed []) (Failed [])) (start [py '' '', py ''fox''])
       = (Returned,
          \<lparr>trace = [Print MsgRule, Print MsgTitle, Print MsgRule, Ask AskApiKey,
                    Print MsgApiKeyRequired],
           stdin = [py ''fox'']\<rparr>)"
    by (simp add: start_def)
  with 1 2 show ?thesis by blast
qed

end
